theory Spec2Isabelle
  imports Complex_Main "HOL-Library.Sublist"
begin

text \<open>
  The repository holds two scripts. \<^verbatim>\<open>scripts/model_evaulation.py\<close> parses a list of
  training set sizes and calls an evaluation of the MACE package for each of them.
  \<^verbatim>\<open>scripts/caco3_MD.py\<close> gives a particle system its initial velocities and runs molecular
  dynamics on it through the ASE library, printing energies and writing a trajectory.
  What the scripts do is modelled statement by statement, with explicit state; what the
  libraries, the clock and the file system do is a parameter of the model.
\<close>

section \<open>Python values used by both scripts\<close>

text \<open>
  Exceptions are values. The two scripts define no exception class of their own; the names
  below are the error taxonomy of the specification (section 7) together with Python's
  \<^verbatim>\<open>ZeroDivisionError\<close>, which \<^verbatim>\<open>x / 0\<close> raises on Python floats and integers.
\<close>

datatype error =
    InvalidConfiguration
  | IOError
  | NumericalDivergence
  | ExternalEvaluationFailure
  | ZeroDivisionError

subsection \<open>Decimal text of integers: \<^verbatim>\<open>str(n)\<close> and \<^verbatim>\<open>int(s)\<close>\<close>

text \<open>
  An f-string placeholder \<^verbatim>\<open>{training_set_size}\<close> formats an \<^verbatim>\<open>int\<close> as \<^verbatim>\<open>str\<close> does:
  the decimal digits, most significant first, after a minus sign when the number is negative.
\<close>

definition digit_char :: "nat \<Rightarrow> char" where
  "digit_char d = ''0123456789'' ! d"

definition is_digit :: "char \<Rightarrow> bool" where
  "is_digit c = (c \<in> set ''0123456789'')"

definition digit_val :: "char \<Rightarrow> nat" where
  "digit_val c = of_char c - 48"

fun str_nat :: "nat \<Rightarrow> string" where
  "str_nat n = (if n < 10 then [digit_char n] else str_nat (n div 10) @ [digit_char (n mod 10)])"

declare str_nat.simps [simp del]

definition str_int :: "int \<Rightarrow> string" where
  "str_int i = (if i < 0 then CHR ''-'' # str_nat (nat (- i)) else str_nat (nat i))"

text \<open>
  \<^verbatim>\<open>int(s)\<close> on a string of ASCII characters (the conversion \<^verbatim>\<open>type=int\<close> asks argparse
  to apply): white space around the number is skipped, one sign may come first, then
  decimal digits, where a single underscore may stand between two digits. Anything else is
  a \<^verbatim>\<open>ValueError\<close>, here \<open>None\<close>. Python integers are unbounded. The interpreter's limit
  on the number of digits of one conversion, which applies above 640 digits, is not part
  of this function; the parser below is modelled for tokens of at most 640 characters.
\<close>

definition is_space :: "char \<Rightarrow> bool" where
  "is_space c = (c \<in> set [CHR 0x09, CHR 0x0A, CHR 0x0B, CHR 0x0C, CHR 0x0D,
                            CHR 0x1C, CHR 0x1D, CHR 0x1E, CHR 0x1F, CHR 0x20])"

definition py_strip :: "string \<Rightarrow> string" where
  "py_strip s = rev (dropWhile is_space (rev (dropWhile is_space s)))"

fun int_digits :: "nat \<Rightarrow> string \<Rightarrow> nat option" where
  "int_digits acc [] = Some acc"
| "int_digits acc [c] = (if is_digit c then Some (10 * acc + digit_val c) else None)"
| "int_digits acc (c # d # ds) =
     (if is_digit c then int_digits (10 * acc + digit_val c) (d # ds)
      else if c = CHR ''_'' \<and> is_digit d then int_digits (10 * acc + digit_val d) ds
      else None)"

definition int_literal :: "string \<Rightarrow> nat option" where
  "int_literal s =
     (case s of
        [] \<Rightarrow> None
      | c # cs \<Rightarrow> if is_digit c then int_digits (digit_val c) cs else None)"

definition py_int :: "string \<Rightarrow> int option" where
  "py_int s =
     (case py_strip s of
        [] \<Rightarrow> None
      | c # cs \<Rightarrow>
          if c = CHR ''-'' then map_option (\<lambda>n. - int n) (int_literal cs)
          else if c = CHR ''+'' then map_option int (int_literal cs)
          else map_option int (int_literal (c # cs)))"

text \<open>The value of a digit string read from the left, used to state what \<open>int_digits\<close> computes.\<close>

definition dec_value :: "nat \<Rightarrow> string \<Rightarrow> nat" where
  "dec_value acc s = foldl (\<lambda>a c. 10 * a + digit_val c) acc s"

section \<open>The batch evaluation script \<^verbatim>\<open>scripts/model_evaulation.py\<close>\<close>

subsection \<open>Argument parsing\<close>

text \<open>
  \<^verbatim>\<open>parser.add_argument("training_set_sizes", type=int, nargs="+")\<close> followed by
  \<^verbatim>\<open>parser.parse_args()\<close>. A failed parse prints the usage and raises \<^verbatim>\<open>SystemExit(2)\<close>;
  the help option raises \<^verbatim>\<open>SystemExit(0)\<close>. The result is either the parsed list or the
  status the parser exits with.

  The model covers the argument lists of plain tokens. A token is plain when it does not
  start with \<^verbatim>\<open>-\<close>, holds ASCII characters only and has at most 640 characters. A token
  that starts with \<^verbatim>\<open>-\<close> goes through argparse's option handling (\<^verbatim>\<open>-h\<close>, \<^verbatim>\<open>--help\<close>,
  \<^verbatim>\<open>--\<close>, abbreviations, tokens that look like negative numbers); on other characters
  \<^verbatim>\<open>int\<close> follows the Unicode database; and a longer token can run into the interpreter's
  limit on the length of integer strings, which starts above 640 digits. For a list with
  a token that is not plain, the parser's result is a parameter of the model,
  \<open>argparse_rest\<close>. Plain tokens are positional arguments: all of them go to
  \<^verbatim>\<open>training_set_sizes\<close>, which needs at least one (\<^verbatim>\<open>nargs="+"\<close>) and converts each with
  \<^verbatim>\<open>int\<close>.
\<close>

datatype 'a parsed = Parsed 'a | ParserExit nat

definition option_like :: "string \<Rightarrow> bool" where
  "option_like t = (case t of [] \<Rightarrow> False | c # cs \<Rightarrow> c = CHR ''-'')"

definition plain_token :: "string \<Rightarrow> bool" where
  "plain_token t =
     (\<not> option_like t \<and> list_all (\<lambda>c. (of_char c :: nat) < 128) t \<and> length t \<le> 640)"

definition parse_args :: "(string list \<Rightarrow> int list parsed) \<Rightarrow> string list \<Rightarrow> int list parsed" where
  "parse_args argparse_rest args =
     (if \<not> list_all plain_token args then argparse_rest args
      else if args = [] then ParserExit 2
      else case those (map py_int args) of
             None \<Rightarrow> ParserExit 2
           | Some sizes \<Rightarrow> Parsed sizes)"

subsection \<open>The evaluation call\<close>

text \<open>
  The state of the process that the script reads and writes: the global \<^verbatim>\<open>sys.argv\<close> and
  the lines printed. \<open>evaluated\<close> is a history variable: the argument vector that each call
  of \<^verbatim>\<open>mace_eval_configs_main\<close> found in \<^verbatim>\<open>sys.argv\<close>, in call order.
\<close>

record process =
  sys_argv :: "string list"
  stdout :: "string list"
  evaluated :: "string list list"

text \<open>
  \<^verbatim>\<open>mace_eval_configs_main\<close> is imported from the MACE package and is a parameter of the
  model: given the number of earlier calls and the \<^verbatim>\<open>sys.argv\<close> it reads, it either returns
  (\<open>None\<close>) or raises an exception (\<open>Some e\<close>; exceptions other than \<^verbatim>\<open>SystemExit\<close>).
  \<^verbatim>\<open>eval_mace\<close> assigns \<^verbatim>\<open>sys.argv\<close> and calls it; nothing catches what it raises and
  nothing assigns \<^verbatim>\<open>sys.argv\<close> afterwards.
\<close>

definition eval_mace ::
  "(nat \<Rightarrow> string list \<Rightarrow> 'e option) \<Rightarrow> string \<Rightarrow> string \<Rightarrow> string \<Rightarrow> process
     \<Rightarrow> 'e option \<times> process" where
  "eval_mace mace_eval_configs_main configs model output st =
     (let st1 = st\<lparr>sys_argv := [''program'', ''--configs'', configs, ''--model'', model,
                                    ''--output'', output]\<rparr>
      in (mace_eval_configs_main (length (evaluated st1)) (sys_argv st1),
          st1\<lparr>evaluated := evaluated st1 @ [sys_argv st1]\<rparr>))"

subsection \<open>The loop over the training set sizes\<close>

text \<open>The three f-strings of the loop body; the first has no placeholder.\<close>

definition configs_path :: "int \<Rightarrow> string" where
  "configs_path training_set_size =
     ''/home/jh2536/rds/hpc-work/training_val_sets/validation_set_100_revPBE_D3.xyz''"

definition model_path :: "int \<Rightarrow> string" where
  "model_path training_set_size =
     ''/home/jh2536/scratch_mace/models/MACE_model_scratch_newE0s_revPBE_D3_''
       @ str_int training_set_size @ ''_stagetwo.model''"

definition output_path :: "int \<Rightarrow> string" where
  "output_path training_set_size =
     ''/home/jh2536/scratch_mace/evaluation/outputs_eval/scratch_newE0s_revPBE_D3_''
       @ str_int training_set_size @ ''_eval_test.xyz''"

text \<open>The argument vector that the call for one size leaves in \<^verbatim>\<open>sys.argv\<close>.\<close>

definition eval_argv :: "int \<Rightarrow> string list" where
  "eval_argv n =
     [''program'', ''--configs'', configs_path n, ''--model'', model_path n,
      ''--output'', output_path n]"

fun eval_loop ::
  "(nat \<Rightarrow> string list \<Rightarrow> 'e option) \<Rightarrow> int list \<Rightarrow> process \<Rightarrow> 'e option \<times> process" where
  "eval_loop mace_eval_configs_main [] st = (None, st)"
| "eval_loop mace_eval_configs_main (training_set_size # rest) st =
     (case eval_mace mace_eval_configs_main (configs_path training_set_size)
             (model_path training_set_size)
             (output_path training_set_size)
             (st\<lparr>stdout := stdout st @ [''Evaluating test set...'']\<rparr>) of
        (Some e, st') \<Rightarrow> (Some e, st')
      | (None, st') \<Rightarrow> eval_loop mace_eval_configs_main rest st')"

text \<open>
  The whole script, from the argument vector the process was started with (the script's
  name first), to the exit status of the process and its last state. An exception that
  leaves the module uncaught ends the interpreter with status 1; \<^verbatim>\<open>SystemExit(k)\<close> from
  the parser ends it with status \<open>k\<close>; running off the end of the module is status 0.
\<close>

definition start :: "string list \<Rightarrow> process" where
  "start argv = \<lparr>sys_argv = argv, stdout = [], evaluated = []\<rparr>"

definition model_evaulation ::
  "(string list \<Rightarrow> int list parsed) \<Rightarrow> (nat \<Rightarrow> string list \<Rightarrow> 'e option) \<Rightarrow> string list
     \<Rightarrow> nat \<times> process" where
  "model_evaulation argparse_rest mace_eval_configs_main argv =
     (case parse_args argparse_rest (drop 1 argv) of
        ParserExit k \<Rightarrow> (k, start argv)
      | Parsed sizes \<Rightarrow>
          (case eval_loop mace_eval_configs_main sizes (start argv) of
             (None, st) \<Rightarrow> (0, st)
           | (Some e, st) \<Rightarrow> (1, st)))"

text \<open>Stand-ins for the external parts, for running the script on concrete inputs.\<close>

definition main_returns :: "nat \<Rightarrow> string list \<Rightarrow> unit option" where
  "main_returns k argv = None"

definition main_raises :: "nat \<Rightarrow> string list \<Rightarrow> unit option" where
  "main_raises k argv = Some ()"

definition rest_rejected :: "string list \<Rightarrow> int list parsed" where
  "rest_rejected args = ParserExit 2"

section \<open>The molecular dynamics script \<^verbatim>\<open>scripts/caco3_MD.py\<close>\<close>

subsection \<open>Arrays of floats\<close>

text \<open>
  The momenta are a numpy array of 64-bit floats. The model is in exact arithmetic: a
  float is a real number, or \<open>None\<close> for a value that is not finite (\<^verbatim>\<open>nan\<close>, \<^verbatim>\<open>inf\<close>,
  \<^verbatim>\<open>-inf\<close>). Masses are finite. With the default numpy error state a division by zero
  raises nothing: it warns and gives a value that is not finite. A sum, a difference, a
  product with a finite number and a quotient by a finite number are not finite as soon as
  an operand is not finite. Rounding and overflow are not modelled.
\<close>

type_synonym float64 = "real option"

definition np_add :: "float64 \<Rightarrow> float64 \<Rightarrow> float64" where
  "np_add x y = (case (x, y) of (Some a, Some b) \<Rightarrow> Some (a + b) | _ \<Rightarrow> None)"

definition np_sub :: "float64 \<Rightarrow> float64 \<Rightarrow> float64" where
  "np_sub x y = (case (x, y) of (Some a, Some b) \<Rightarrow> Some (a - b) | _ \<Rightarrow> None)"

definition np_mul :: "float64 \<Rightarrow> real \<Rightarrow> float64" where
  "np_mul x m = (case x of Some a \<Rightarrow> Some (a * m) | None \<Rightarrow> None)"

definition np_div :: "float64 \<Rightarrow> real \<Rightarrow> float64" where
  "np_div x m = (case x of Some a \<Rightarrow> if m = 0 then None else Some (a / m) | None \<Rightarrow> None)"

text \<open>A row of the \<open>N \<times> 3\<close> array, and the elementwise operations with broadcasting.\<close>

type_synonym vec3 = "float64 \<times> float64 \<times> float64"

fun vadd :: "vec3 \<Rightarrow> vec3 \<Rightarrow> vec3" where
  "vadd (a, b, c) (a', b', c') = (np_add a a', np_add b b', np_add c c')"

fun vsub :: "vec3 \<Rightarrow> vec3 \<Rightarrow> vec3" where
  "vsub (a, b, c) (a', b', c') = (np_sub a a', np_sub b b', np_sub c c')"

fun vscale :: "vec3 \<Rightarrow> real \<Rightarrow> vec3" where
  "vscale (a, b, c) m = (np_mul a m, np_mul b m, np_mul c m)"

fun vdiv :: "vec3 \<Rightarrow> real \<Rightarrow> vec3" where
  "vdiv (a, b, c) m = (np_div a m, np_div b m, np_div c m)"

definition vzero :: vec3 where
  "vzero = (Some 0, Some 0, Some 0)"

definition vnan :: vec3 where
  "vnan = (None, None, None)"

fun finite_vec :: "vec3 \<Rightarrow> bool" where
  "finite_vec (a, b, c) = (a \<noteq> None \<and> b \<noteq> None \<and> c \<noteq> None)"

text \<open>\<^verbatim>\<open>momenta.sum(axis=0)\<close>: the sum of the rows; the sum of no rows is zero.\<close>

fun sum_axis0 :: "vec3 list \<Rightarrow> vec3" where
  "sum_axis0 [] = vzero"
| "sum_axis0 (p # ps) = vadd p (sum_axis0 ps)"

subsection \<open>The particle system\<close>

text \<open>
  The \<^verbatim>\<open>Atoms\<close> object \<^verbatim>\<open>CaCO3\<close>: one entry per atom, with its mass and momentum, and the
  position and atomic number that the calculator reads. \<^verbatim>\<open>len(a)\<close> is the number of
  atoms.
\<close>

record particle =
  mass :: real
  momentum :: vec3
  position :: "real \<times> real \<times> real"
  number :: nat

type_synonym atoms = "particle list"

definition get_momenta :: "atoms \<Rightarrow> vec3 list" where
  "get_momenta a = map momentum a"

definition get_masses :: "atoms \<Rightarrow> real list" where
  "get_masses a = map mass a"

definition set_momenta :: "atoms \<Rightarrow> vec3 list \<Rightarrow> atoms" where
  "set_momenta a ps = map2 (\<lambda>x p. x\<lparr>momentum := p\<rparr>) a ps"

subsection \<open>\<^verbatim>\<open>remove_COM_velocity\<close>\<close>

text \<open>
  Lines 43 to 48. \<^verbatim>\<open>atoms.get_masses()[:, np.newaxis]\<close> is the column of masses, so the
  product \<^verbatim>\<open>com_velocity * masses\<close> has the row \<^verbatim>\<open>com_velocity * m\<close> for the atom of mass
  \<open>m\<close>. The function has no check and no \<^verbatim>\<open>raise\<close>.
\<close>

definition remove_COM_velocity :: "atoms \<Rightarrow> atoms" where
  "remove_COM_velocity atoms =
     (let momenta = get_momenta atoms;
          total_momentum = sum_axis0 momenta;
          total_mass = sum_list (get_masses atoms);
          com_velocity = vdiv total_momentum total_mass
      in set_momenta atoms
           (map2 (\<lambda>p m. vsub p (vscale com_velocity m)) momenta (get_masses atoms)))"

text \<open>
  Lines 52 to 54: the initial velocities. \<^verbatim>\<open>MaxwellBoltzmannDistribution\<close> belongs to the
  ASE library and draws random momenta; it is a parameter, a function that returns the
  atoms with their new momenta or raises.
\<close>

definition velocity_initializer ::
  "(real \<Rightarrow> atoms \<Rightarrow> error + atoms) \<Rightarrow> real \<Rightarrow> atoms \<Rightarrow> error + atoms" where
  "velocity_initializer MaxwellBoltzmannDistribution temperature_K a =
     (case MaxwellBoltzmannDistribution temperature_K a of
        Inl e \<Rightarrow> Inl e
      | Inr a' \<Rightarrow> Inr (remove_COM_velocity a'))"

subsection \<open>\<^verbatim>\<open>printenergy\<close>\<close>

text \<open>
  Lines 34 to 40. The function prints one line; the model returns the six values that the
  format string receives, in the order of the line. The energies come from the calculator
  and from ASE (\<^verbatim>\<open>get_potential_energy\<close>, \<^verbatim>\<open>get_kinetic_energy\<close>), Boltzmann's constant is
  \<^verbatim>\<open>units.kB\<close> and the time is \<^verbatim>\<open>time.time()\<close>: all parameters. The divisions are taken as
  divisions of Python floats, which raise \<^verbatim>\<open>ZeroDivisionError\<close> on a zero divisor.
  \<^verbatim>\<open>divmod(x, 60)\<close> is the floor of the quotient and the remainder; \<^verbatim>\<open>int\<close> cuts a float
  towards zero.
\<close>

record diag_line =
  Epot :: real
  Ekin :: real
  Temperature :: real
  Etot :: real
  Elapsed_min :: int
  Elapsed_sec :: int

definition py_divmod :: "real \<Rightarrow> real \<Rightarrow> real \<times> real" where
  "py_divmod x y = (of_int \<lfloor>x / y\<rfloor>, x - of_int \<lfloor>x / y\<rfloor> * y)"

definition py_trunc :: "real \<Rightarrow> int" where
  "py_trunc x = (if 0 \<le> x then \<lfloor>x\<rfloor> else \<lceil>x\<rceil>)"

definition printenergy ::
  "real \<Rightarrow> (atoms \<Rightarrow> real) \<Rightarrow> (atoms \<Rightarrow> real) \<Rightarrow> real \<Rightarrow> real \<Rightarrow> atoms
     \<Rightarrow> error + diag_line" where
  "printenergy kB get_potential_energy get_kinetic_energy start_time now a =
     (if length a = 0 then Inl ZeroDivisionError
      else
        let epot = get_potential_energy a / real (length a);
            ekin = get_kinetic_energy a / real (length a);
            elapsed_time = now - start_time;
            (elapsed_min, elapsed_sec) = py_divmod elapsed_time 60
        in if 1.5 * kB = 0 then Inl ZeroDivisionError
           else Inr \<lparr>Epot = epot, Ekin = ekin, Temperature = ekin / (1.5 * kB),
                     Etot = epot + ekin,
                     Elapsed_min = py_trunc elapsed_min, Elapsed_sec = py_trunc
                         elapsed_sec\<rparr>)"

subsection \<open>The trajectory file and the state of the script\<close>

text \<open>
  \<^verbatim>\<open>Trajectory(path, 'w', CaCO3)\<close> opens the file for writing and \<^verbatim>\<open>traj.write\<close> appends the
  current atoms as the next frame. \<open>Closed\<close> is the state that \<^verbatim>\<open>traj.close()\<close>, or leaving a
  \<^verbatim>\<open>with\<close> block, would give; the script has neither.
\<close>

datatype trajectory = Unopened | Opened "atoms list" | Closed "atoms list"

fun frames :: "trajectory \<Rightarrow> atoms list" where
  "frames Unopened = []"
| "frames (Opened fs) = fs"
| "frames (Closed fs) = fs"

fun is_open :: "trajectory \<Rightarrow> bool" where
  "is_open (Opened fs) = True"
| "is_open f = False"


text \<open>
  What the script reads and writes from line 51 on: the atoms (changed in place), the lines
  printed, and the trajectory file.
\<close>

record world =
  system :: atoms
  console :: "diag_line list"
  traj :: trajectory

text \<open>
  What the script takes from outside: the libraries, the clock and the file system.
  \<open>time_time k\<close> is what the call number \<open>k\<close> of \<^verbatim>\<open>time.time()\<close> returns (call 0 is line 32);
  \<open>trajectory_writes fs\<close> tells whether appending a frame after the frames \<open>fs\<close> succeeds;
  \<open>bussi_step\<close> is one step of the \<^verbatim>\<open>Bussi\<close> dynamics on the atoms, which may raise.
\<close>

record env =
  units_kB :: real
  potential_energy :: "atoms \<Rightarrow> real"
  kinetic_energy :: "atoms \<Rightarrow> real"
  time_time :: "nat \<Rightarrow> real"
  maxwell_boltzmann :: "real \<Rightarrow> atoms \<Rightarrow> error + atoms"
  trajectory_opens :: bool
  trajectory_writes :: "atoms list \<Rightarrow> bool"
  bussi_step :: "atoms \<Rightarrow> error + atoms"

type_synonym 'w callback = "'w \<Rightarrow> error + 'w"

text \<open>
  \<^verbatim>\<open>printenergy\<close> as it runs in the script, called with no argument: its default argument is
  the object \<^verbatim>\<open>CaCO3\<close>, and \<^verbatim>\<open>start_time\<close> is the module's global.
\<close>

definition call_printenergy :: "env \<Rightarrow> world callback" where
  "call_printenergy e w =
     (case printenergy (units_kB e) (potential_energy e) (kinetic_energy e)
             (time_time e 0) (time_time e (Suc (length (console w)))) (system w) of
        Inl err \<Rightarrow> Inl err
      | Inr line \<Rightarrow> Inr (w\<lparr>console := console w @ [line]\<rparr>))"

definition traj_write :: "env \<Rightarrow> world callback" where
  "traj_write e w =
     (case traj w of
        Opened fs \<Rightarrow>
          if trajectory_writes e fs then Inr (w\<lparr>traj := Opened (fs @ [system w])\<rparr>)
          else Inl IOError
      | _ \<Rightarrow> Inl IOError)"

definition advance :: "env \<Rightarrow> world callback" where
  "advance e w =
     (case bussi_step e (system w) of
        Inl err \<Rightarrow> Inl err
      | Inr a \<Rightarrow> Inr (w\<lparr>system := a\<rparr>))"

subsection \<open>The call of the dynamics\<close>

text \<open>
  \<^verbatim>\<open>dyn.run(n_steps)\<close> runs the loop of the ASE library. What the script gives it are the
  atoms and the two attached functions, so whatever the loop does to the state of the
  script is a sequence of integrator steps and of calls of attached functions, after which
  it returns or raises. \<open>driven step cbs w r w'\<close>: started in \<open>w\<close>, such a run can end in
  \<open>w'\<close>, returning (\<open>r = None\<close>) or raising (\<open>r = Some err\<close>).
\<close>

inductive driven ::
  "'w callback \<Rightarrow> ('w callback \<times> nat) list \<Rightarrow> 'w \<Rightarrow> error option \<Rightarrow> 'w \<Rightarrow> bool"
  for step :: "'w callback" and cbs :: "('w callback \<times> nat) list" where
  stops: "driven step cbs w r w"
| advances: "step w = Inr w1 \<Longrightarrow> driven step cbs w1 r w' \<Longrightarrow> driven step cbs w r w'"
| calls: "(f, i) \<in> set cbs \<Longrightarrow> f w = Inr w1 \<Longrightarrow> driven step cbs w1 r w' \<Longrightarrow> driven step cbs w r w'"

subsection \<open>The script\<close>

text \<open>
  Lines 51 to 65, started with the atoms read at line 23. The result is how the script
  ends (\<open>None\<close>: it runs off its last line; \<open>Some err\<close>: an exception leaves it) and the state
  it ends in. \<open>run\<close> is \<^verbatim>\<open>dyn.run\<close>, given the attached functions with their intervals and
  the number of steps; building the dynamics object and attaching a function change
  nothing that the script reads. No line after \<^verbatim>\<open>dyn.run(n_steps)\<close> follows, and no \<^verbatim>\<open>try\<close>
  or \<^verbatim>\<open>with\<close> encloses any of the lines.
\<close>

definition T_init :: real where
  "T_init = 600"

definition n_steps :: nat where
  "n_steps = 250000"

definition caco3_MD ::
  "env \<Rightarrow> ((world callback \<times> nat) list \<Rightarrow> nat \<Rightarrow> world \<Rightarrow> error option \<times> world) \<Rightarrow> atoms
     \<Rightarrow> error option \<times> world" where
  "caco3_MD e run CaCO3 =
     (let w0 = \<lparr>system = CaCO3, console = [], traj = Unopened\<rparr> in
      case velocity_initializer (maxwell_boltzmann e) T_init CaCO3 of
        Inl err \<Rightarrow> (Some err, w0)
      | Inr a \<Rightarrow>
          let w1 = w0\<lparr>system := a\<rparr> in
          if \<not> trajectory_opens e then (Some IOError, w1)
          else
            let w2 = w1\<lparr>traj := Opened []\<rparr> in
            case call_printenergy e w2 of
              Inl err \<Rightarrow> (Some err, w2)
            | Inr w3 \<Rightarrow> run [(call_printenergy e, 1000), (traj_write e, 10)] n_steps w3)"

subsection \<open>The dynamics driver of the specification\<close>

text \<open>
  Modelled from the spec: the callbacks of one step of the Dynamics Driver (section 4.4),
  whose code is the ASE library's and not the repository's. For each step \<open>s = 1..N\<close> the
  driver lets the integrator advance the system and then invokes, in attachment order, every attached
  callback whose interval divides \<open>s\<close>. An error of the integrator or of a callback stops
  the run at once and is surfaced; what was done before stays. A step count or an interval
  that is not positive is an \<open>InvalidConfiguration\<close> (section 7).
\<close>

fun call_observers :: "('w callback \<times> nat) list \<Rightarrow> nat \<Rightarrow> 'w \<Rightarrow> error option \<times> 'w" where
  "call_observers [] s w = (None, w)"
| "call_observers ((f, i) # cbs) s w =
     (if i dvd s then
        (case f w of
           Inl err \<Rightarrow> (Some err, w)
         | Inr w1 \<Rightarrow> call_observers cbs s w1)
      else call_observers cbs s w)"

text \<open>
  Modelled from the spec: the loop of the Dynamics Driver (section 4.4), from the step
  counter \<open>s\<close> for \<open>k\<close> more steps.
\<close>

fun md_steps ::
  "'w callback \<Rightarrow> ('w callback \<times> nat) list \<Rightarrow> nat \<Rightarrow> nat \<Rightarrow> 'w \<Rightarrow> error option \<times> 'w" where
  "md_steps step cbs s 0 w = (None, w)"
| "md_steps step cbs s (Suc k) w =
     (case step w of
        Inl err \<Rightarrow> (Some err, w)
      | Inr w1 \<Rightarrow>
          (case call_observers cbs (Suc s) w1 of
             (Some err, w2) \<Rightarrow> (Some err, w2)
           | (None, w2) \<Rightarrow> md_steps step cbs (Suc s) k w2))"

text \<open>
  Modelled from the spec: the run operation of the Dynamics Driver (sections 4.4 and 7),
  from \<open>Initialized\<close> to \<open>Completed\<close> (\<open>None\<close>) or \<open>Failed\<close> (\<open>Some err\<close>).
\<close>

definition md_run ::
  "'w callback \<Rightarrow> ('w callback \<times> nat) list \<Rightarrow> nat \<Rightarrow> 'w \<Rightarrow> error option \<times> 'w" where
  "md_run step cbs N w =
     (if N = 0 \<or> list_ex (\<lambda>(f, i). i = 0) cbs then (Some InvalidConfiguration, w)
      else md_steps step cbs 0 N w)"

subsection \<open>Concrete inputs\<close>

definition two_atoms :: atoms where
  "two_atoms =
     [\<lparr>mass = 1, momentum = (Some 1, Some 0, Some 0), position = (0, 0, 0), number = 20\<rparr>,
      \<lparr>mass = 3, momentum = (Some 3, Some 2, Some 0), position = (1, 0, 0), number = 8\<rparr>]"

definition massless_atom :: atoms where
  "massless_atom =
     [\<lparr>mass = 0, momentum = (Some 0, Some 0, Some 0), position = (0, 0, 0), number = 0\<rparr>]"

text \<open>
  A Maxwell-Boltzmann assignment that leaves the momenta as they are, as the library's
  does for atoms of mass zero at rest (its momenta are proportional to the square root of
  the mass).
\<close>

definition MaxwellBoltzmann_keeps :: "real \<Rightarrow> atoms \<Rightarrow> error + atoms" where
  "MaxwellBoltzmann_keeps temperature_K a = Inr a"

definition energy_4 :: "atoms \<Rightarrow> real" where
  "energy_4 a = 4"

definition energy_3 :: "atoms \<Rightarrow> real" where
  "energy_3 a = 3"

definition seconds_since_start :: "nat \<Rightarrow> real" where
  "seconds_since_start k = real k"

definition always_writes :: "atoms list \<Rightarrow> bool" where
  "always_writes fs = True"

definition bussi_keeps :: "atoms \<Rightarrow> error + atoms" where
  "bussi_keeps a = Inr a"

definition quiet_env :: env where
  "quiet_env =
     \<lparr>units_kB = 1, potential_energy = energy_4, kinetic_energy = energy_3,
      time_time = seconds_since_start, maxwell_boltzmann = MaxwellBoltzmann_keeps,
      trajectory_opens = True, trajectory_writes = always_writes, bussi_step = bussi_keeps\<rparr>"

definition opened_world :: world where
  "opened_world = \<lparr>system = two_atoms, console = [], traj = Opened []\<rparr>"

text \<open>
  Six steps of the driver of the specification with the script's two callbacks at the
  intervals 3 and 2, and the script run with that driver, where nothing outside fails.
\<close>

definition six_steps :: "error option \<times> world" where
  "six_steps =
     md_run (advance quiet_env) [(call_printenergy quiet_env, 3), (traj_write quiet_env, 2)] 6
       opened_world"

definition quiet_script :: "error option \<times> world" where
  "quiet_script = caco3_MD quiet_env (md_run (advance quiet_env)) two_atoms"


section \<open>Properties of the batch evaluation script\<close>

subsection \<open>Decimal text\<close>

lemma digit_char_digit: "d < 10 \<Longrightarrow> is_digit (digit_char d) \<and> digit_val (digit_char d) = d"
proof -
  assume "d < 10"
  then have "d \<in> {0, 1, 2, 3, 4, 5, 6, 7, 8, 9}" by auto
  then show ?thesis
    by (auto simp: is_digit_def digit_char_def digit_val_def)
qed

lemma str_nat_digits: "str_nat n \<noteq> [] \<and> list_all is_digit (str_nat n)"
proof (induction n rule: str_nat.induct)
  case (1 n)
  show ?case
  proof (cases "n < 10")
    case True
    then show ?thesis by (simp add: str_nat.simps [of n] digit_char_digit)
  next
    case False
    with "1.IH" have "list_all is_digit (str_nat (n div 10))" by simp
    moreover have "is_digit (digit_char (n mod 10))" by (simp add: digit_char_digit)
    ultimately show ?thesis using False by (simp add: str_nat.simps [of n])
  qed
qed

lemma int_digits_all_digits:
  "list_all is_digit s \<Longrightarrow> int_digits acc s = Some (dec_value acc s)"
  by (induction acc s rule: int_digits.induct) (auto simp: dec_value_def)

lemma dec_value_str_nat: "dec_value 0 (str_nat n) = n"
proof (induction n rule: str_nat.induct)
  case (1 n)
  show ?case
  proof (cases "n < 10")
    case True
    then show ?thesis by (simp add: str_nat.simps [of n] dec_value_def digit_char_digit)
  next
    case False
    with "1.IH" have "dec_value 0 (str_nat (n div 10)) = n div 10" by simp
    then show ?thesis using False
      by (simp add: str_nat.simps [of n] dec_value_def digit_char_digit)
  qed
qed

lemma int_literal_str_nat: "int_literal (str_nat n) = Some n"
proof -
  obtain c cs where s: "str_nat n = c # cs"
    using str_nat_digits [of n] by (cases "str_nat n") auto
  with str_nat_digits [of n] have c: "is_digit c" and cs: "list_all is_digit cs" by auto
  have "int_literal (str_nat n) = int_digits (digit_val c) cs"
    using s c by (simp add: int_literal_def)
  also have "\<dots> = Some (dec_value (digit_val c) cs)"
    using cs by (rule int_digits_all_digits)
  also have "dec_value (digit_val c) cs = dec_value 0 (str_nat n)"
    using s by (simp add: dec_value_def)
  finally show ?thesis by (simp add: dec_value_str_nat)
qed

lemma digit_not_space: "is_digit c \<Longrightarrow> \<not> is_space c \<and> c \<noteq> CHR ''-'' \<and> c \<noteq> CHR ''+''"
  by (auto simp: is_digit_def is_space_def)

lemma py_strip_id: "s \<noteq> [] \<Longrightarrow> \<not> is_space (hd s) \<Longrightarrow> \<not> is_space (last s) \<Longrightarrow> py_strip s = s"
proof -
  assume ne: "s \<noteq> []" and h: "\<not> is_space (hd s)" and l: "\<not> is_space (last s)"
  from h have "dropWhile is_space s = s" by (simp add: dropWhile_eq_self_iff)
  moreover from ne l have "dropWhile is_space (rev s) = rev s"
    by (simp add: dropWhile_eq_self_iff hd_rev)
  ultimately show ?thesis by (simp add: py_strip_def)
qed

lemma str_nat_ends: "is_digit (hd (str_nat n)) \<and> is_digit (last (str_nat n))"
  using str_nat_digits [of n] by (cases "str_nat n") (auto simp: list_all_iff)

lemma py_int_str_int: "py_int (str_int i) = Some i"
proof (cases "i < 0")
  case True
  let ?s = "str_nat (nat (- i))"
  have ne: "?s \<noteq> []" using str_nat_digits by blast
  have "py_strip (CHR ''-'' # ?s) = CHR ''-'' # ?s"
    using ne str_nat_ends [of "nat (- i)"] digit_not_space
    by (intro py_strip_id) (auto simp: is_space_def)
  then show ?thesis using True
    by (simp add: py_int_def str_int_def int_literal_str_nat)
next
  case False
  let ?s = "str_nat (nat i)"
  obtain c cs where s: "?s = c # cs"
    using str_nat_digits [of "nat i"] by (cases ?s) auto
  have c: "is_digit c" using str_nat_ends [of "nat i"] s by simp
  have "py_strip ?s = ?s"
    using str_nat_digits [of "nat i"] str_nat_ends [of "nat i"] digit_not_space
    by (intro py_strip_id) auto
  moreover have "int_literal (c # cs) = Some (nat i)"
    using int_literal_str_nat [of "nat i"] s by simp
  ultimately show ?thesis using False s c digit_not_space [of c]
    by (simp add: py_int_def str_int_def)
qed

lemma str_int_inj: "str_int a = str_int b \<Longrightarrow> a = b"
proof -
  assume "str_int a = str_int b"
  then have "py_int (str_int a) = py_int (str_int b)" by simp
  then show "a = b" by (simp add: py_int_str_int)
qed

subsection \<open>The evaluation loop\<close>

lemma eval_mace_state:
  "snd (eval_mace main c m out st) =
     st\<lparr>sys_argv := [''program'', ''--configs'', c, ''--model'', m, ''--output'', out],
        evaluated := evaluated st @ [[''program'', ''--configs'', c, ''--model'', m, ''--output'',
            out]]\<rparr>"
  by (simp add: eval_mace_def Let_def)

lemma eval_mace_outcome:
  "fst (eval_mace main c m out st) =
     main (length (evaluated st)) [''program'', ''--configs'', c, ''--model'', m, ''--output'',
         out]"
  by (simp add: eval_mace_def Let_def)

text \<open>The loop: either every call returns, or the first raising call ends it.\<close>

lemma eval_loop_cases:
  "eval_loop main ns st = (r, st') \<Longrightarrow>
     (r = None \<and> evaluated st' = evaluated st @ map eval_argv ns \<and>
        (\<forall>j < length ns. main (length (evaluated st) + j) (eval_argv (ns ! j)) = None))
   \<or> (\<exists>j < length ns. r \<noteq> None \<and> r = main (length (evaluated st) + j) (eval_argv (ns ! j)) \<and>
        evaluated st' = evaluated st @ map eval_argv (take (Suc j) ns) \<and>
        (\<forall>i < j. main (length (evaluated st) + i) (eval_argv (ns ! i)) = None))"
proof (induction ns arbitrary: st)
  case Nil
  then show ?case by simp
next
  case (Cons n ns)
  let ?st0 = "st\<lparr>stdout := stdout st @ [''Evaluating test set...'']\<rparr>"
  let ?call = "eval_mace main (configs_path n) (model_path n) (output_path n) ?st0"
  let ?st1 = "snd ?call"
  have ev1: "evaluated ?st1 = evaluated st @ [eval_argv n]"
    by (simp add: eval_mace_state eval_argv_def)
  have out1: "fst ?call = main (length (evaluated st)) (eval_argv n)"
    by (simp add: eval_mace_outcome eval_argv_def)
  show ?case
  proof (cases "fst ?call")
    case None
    then have "eval_loop main (n # ns) st = eval_loop main ns ?st1"
      by (cases ?call) simp
    with Cons.prems have run: "eval_loop main ns ?st1 = (r, st')" by simp
    from Cons.IH [OF run] show ?thesis
    proof
      assume a: "r = None \<and> evaluated st' = evaluated ?st1 @ map eval_argv ns \<and>
        (\<forall>j < length ns. main (length (evaluated ?st1) + j) (eval_argv (ns ! j)) = None)"
      have "\<forall>j < length (n # ns). main (length (evaluated st) + j) (eval_argv ((n # ns) ! j)) =
          None"
      proof (intro allI impI)
        fix j assume j: "j < length (n # ns)"
        show "main (length (evaluated st) + j) (eval_argv ((n # ns) ! j)) = None"
        proof (cases j)
          case 0
          then show ?thesis using None out1 by simp
        next
          case (Suc k)
          with j a ev1 show ?thesis by simp
        qed
      qed
      with a ev1 show ?thesis by simp
    next
      assume "\<exists>j < length ns. r \<noteq> None \<and> r = main (length (evaluated ?st1) + j) (eval_argv (ns ! j))
          \<and>
        evaluated st' = evaluated ?st1 @ map eval_argv (take (Suc j) ns) \<and>
        (\<forall>i < j. main (length (evaluated ?st1) + i) (eval_argv (ns ! i)) = None)"
      then obtain j where j: "j < length ns" "r \<noteq> None"
        "r = main (length (evaluated ?st1) + j) (eval_argv (ns ! j))"
        "evaluated st' = evaluated ?st1 @ map eval_argv (take (Suc j) ns)"
        "\<forall>i < j. main (length (evaluated ?st1) + i) (eval_argv (ns ! i)) = None"
        by blast
      have "\<forall>i < Suc j. main (length (evaluated st) + i) (eval_argv ((n # ns) ! i)) = None"
      proof (intro allI impI)
        fix i assume i: "i < Suc j"
        show "main (length (evaluated st) + i) (eval_argv ((n # ns) ! i)) = None"
        proof (cases i)
          case 0
          then show ?thesis using None out1 by simp
        next
          case (Suc k)
          with i j(5) ev1 show ?thesis by simp
        qed
      qed
      moreover have "Suc j < length (n # ns)" using j(1) by simp
      moreover have "r = main (length (evaluated st) + Suc j) (eval_argv ((n # ns) ! Suc j))"
        using j(3) ev1 by simp
      moreover have "evaluated st' = evaluated st @ map eval_argv (take (Suc (Suc j)) (n # ns))"
        using j(4) ev1 by simp
      ultimately show ?thesis using j(2) by blast
    qed
  next
    case (Some e)
    then have "eval_loop main (n # ns) st = (Some e, ?st1)"
      by (cases ?call) simp
    with Cons.prems have "r = Some e" "st' = ?st1" by simp_all
    with Some out1 ev1 have "0 < length (n # ns) \<and> r \<noteq> None \<and>
        r = main (length (evaluated st) + 0) (eval_argv ((n # ns) ! 0)) \<and>
        evaluated st' = evaluated st @ map eval_argv (take (Suc 0) (n # ns)) \<and>
        (\<forall>i < 0. main (length (evaluated st) + i) (eval_argv ((n # ns) ! i)) = None)"
      by simp
    then show ?thesis by blast
  qed
qed






lemma run_script:
  "parse_args rest (drop 1 argv) = Parsed sizes \<Longrightarrow>
     model_evaulation rest main argv =
       (case eval_loop main sizes (start argv) of (None, st) \<Rightarrow> (0, st) | (Some e, st) \<Rightarrow> (1, st))"
  by (simp add: model_evaulation_def)

lemma eval_loop_last_argv:
  "eval_loop main ns st = (r, st') \<Longrightarrow> evaluated st \<noteq> [] \<Longrightarrow> sys_argv st = last (evaluated st) \<Longrightarrow>
     evaluated st' \<noteq> [] \<and> sys_argv st' = last (evaluated st')"
proof (induction ns arbitrary: st)
  case Nil
  then show ?case by simp
next
  case (Cons n ns)
  let ?call = "eval_mace main (configs_path n) (model_path n) (output_path n)
                 (st\<lparr>stdout := stdout st @ [''Evaluating test set...'']\<rparr>)"
  have st1: "evaluated (snd ?call) \<noteq> [] \<and> sys_argv (snd ?call) = last (evaluated (snd ?call))"
    by (simp add: eval_mace_state)
  show ?case
  proof (cases "fst ?call")
    case None
    then have "eval_loop main (n # ns) st = eval_loop main ns (snd ?call)"
      by (cases ?call) simp
    with Cons.prems(1) have run': "eval_loop main ns (snd ?call) = (r, st')" by simp
    show ?thesis by (rule Cons.IH [OF run']) (simp_all add: st1)
  next
    case (Some e)
    then have "eval_loop main (n # ns) st = (Some e, snd ?call)"
      by (cases ?call) simp
    with Cons.prems(1) st1 show ?thesis by simp
  qed
qed

lemma eval_loop_first_call:
  "eval_loop main (n # ns) st = (r, st') \<Longrightarrow>
     evaluated st' \<noteq> [] \<and> sys_argv st' = last (evaluated st')"
proof -
  let ?call = "eval_mace main (configs_path n) (model_path n) (output_path n)
                 (st\<lparr>stdout := stdout st @ [''Evaluating test set...'']\<rparr>)"
  assume run: "eval_loop main (n # ns) st = (r, st')"
  have st1: "evaluated (snd ?call) \<noteq> [] \<and> sys_argv (snd ?call) = last (evaluated (snd ?call))"
    by (simp add: eval_mace_state)
  show ?thesis
  proof (cases "fst ?call")
    case None
    then have "eval_loop main (n # ns) st = eval_loop main ns (snd ?call)"
      by (cases ?call) simp
    with run have run': "eval_loop main ns (snd ?call) = (r, st')" by simp
    show ?thesis by (rule eval_loop_last_argv [OF run']) (simp_all add: st1)
  next
    case (Some e)
    then have "eval_loop main (n # ns) st = (Some e, snd ?call)"
      by (cases ?call) simp
    with run st1 show ?thesis by simp
  qed
qed

lemma eval_loop_evaluated_set:
  "eval_loop main ns st = (r, st') \<Longrightarrow>
     \<exists>k \<le> length ns. evaluated st' = evaluated st @ map eval_argv (take k ns) \<and> (ns \<noteq> [] \<longrightarrow> 0 < k)"
proof -
  assume "eval_loop main ns st = (r, st')"
  from eval_loop_cases [OF this] show ?thesis
  proof
    assume "r = None \<and> evaluated st' = evaluated st @ map eval_argv ns \<and>
        (\<forall>j < length ns. main (length (evaluated st) + j) (eval_argv (ns ! j)) = None)"
    then have "evaluated st' = evaluated st @ map eval_argv (take (length ns) ns)" by simp
    then show ?thesis by (intro exI [of _ "length ns"]) auto
  next
    assume "\<exists>j < length ns. r \<noteq> None \<and> r = main (length (evaluated st) + j) (eval_argv (ns ! j)) \<and>
        evaluated st' = evaluated st @ map eval_argv (take (Suc j) ns) \<and>
        (\<forall>i < j. main (length (evaluated st) + i) (eval_argv (ns ! i)) = None)"
    then obtain j where "j < length ns" "evaluated st' = evaluated st @ map eval_argv
        (take (Suc j) ns)"
      by blast
    then show ?thesis by (intro exI [of _ "Suc j"]) auto
  qed
qed




lemma parse_10_20: "parse_args rest [''10'', ''20''] = Parsed [10, 20]"
  by (simp add: parse_args_def plain_token_def option_like_def py_int_def py_strip_def
      is_space_def int_literal_def is_digit_def digit_val_def)

section \<open>Claims about the batch evaluation script\<close>

subsection \<open>C6: the run with sizes 10 and 20\<close>




subsection \<open>C7: what the argument parser accepts\<close>




subsection \<open>C8: the exit status\<close>

text \<open>
  Claim C8, as amended. When parsing fails the process exits with the parser's status and
  no evaluation runs. When parsing succeeds, the exit status is 0 exactly when every
  evaluation returns, and then every size was evaluated in order; it is 1 when an
  evaluation raises: the exception is not caught, the loop ends at the first call that
  raises, and the sizes after it are not evaluated. So the exit status does depend on the
  evaluations.
\<close>

theorem exit_status_cases:
  "(parse_args rest (drop 1 argv) = ParserExit k \<longrightarrow>
       model_evaulation rest main argv = (k, start argv))
   \<and> (parse_args rest (drop 1 argv) = Parsed sizes \<longrightarrow>
       (fst (model_evaulation rest main argv) = 0 \<and>
        (\<forall>j < length sizes. main j (eval_argv (sizes ! j)) = None) \<and>
        evaluated (snd (model_evaulation rest main argv)) = map eval_argv sizes)
     \<or> (fst (model_evaulation rest main argv) = 1 \<and>
        (\<exists>j < length sizes. main j (eval_argv (sizes ! j)) \<noteq> None \<and>
           (\<forall>i < j. main i (eval_argv (sizes ! i)) = None) \<and>
           evaluated (snd (model_evaulation rest main argv))
             = map eval_argv (take (Suc j) sizes))))"
proof (intro conjI impI)
  assume "parse_args rest (drop 1 argv) = ParserExit k"
  then show "model_evaulation rest main argv = (k, start argv)"
    by (simp add: model_evaulation_def)
next
  assume p: "parse_args rest (drop 1 argv) = Parsed sizes"
  obtain r st where run: "eval_loop main sizes (start argv) = (r, st)"
    by (cases "eval_loop main sizes (start argv)")
  have e0: "evaluated (start argv) = []" by (simp add: start_def)
  from eval_loop_cases [OF run] show
    "(fst (model_evaulation rest main argv) = 0 \<and>
        (\<forall>j < length sizes. main j (eval_argv (sizes ! j)) = None) \<and>
        evaluated (snd (model_evaulation rest main argv)) = map eval_argv sizes)
     \<or> (fst (model_evaulation rest main argv) = 1 \<and>
        (\<exists>j < length sizes. main j (eval_argv (sizes ! j)) \<noteq> None \<and>
           (\<forall>i < j. main i (eval_argv (sizes ! i)) = None) \<and>
           evaluated (snd (model_evaulation rest main argv))
             = map eval_argv (take (Suc j) sizes)))"
  proof
    assume a: "r = None \<and> evaluated st = evaluated (start argv) @ map eval_argv sizes \<and>
        (\<forall>j < length sizes. main (length (evaluated (start argv)) + j) (eval_argv (sizes ! j)) =
            None)"
    then have "model_evaulation rest main argv = (0, st)"
      using run by (simp add: run_script [OF p])
    with a e0 show ?thesis by simp
  next
    assume "\<exists>j < length sizes. r \<noteq> None \<and>
        r = main (length (evaluated (start argv)) + j) (eval_argv (sizes ! j)) \<and>
        evaluated st = evaluated (start argv) @ map eval_argv (take (Suc j) sizes) \<and>
        (\<forall>i < j. main (length (evaluated (start argv)) + i) (eval_argv (sizes ! i)) = None)"
    then obtain j where j0: "j < length sizes \<and> r \<noteq> None \<and>
        r = main (length (evaluated (start argv)) + j) (eval_argv (sizes ! j)) \<and>
        evaluated st = evaluated (start argv) @ map eval_argv (take (Suc j) sizes) \<and>
        (\<forall>i < j. main (length (evaluated (start argv)) + i) (eval_argv (sizes ! i)) = None)"
      by blast
    then have "j < length sizes" and "r \<noteq> None"
      and "r = main (length (evaluated (start argv)) + j) (eval_argv (sizes ! j))"
      and "evaluated st = evaluated (start argv) @ map eval_argv (take (Suc j) sizes)"
      and "\<forall>i < j. main (length (evaluated (start argv)) + i) (eval_argv (sizes ! i)) = None"
      by blast+
    then have j: "j < length sizes" "r \<noteq> None" "r = main j (eval_argv (sizes ! j))"
        "evaluated st = map eval_argv (take (Suc j) sizes)"
        "\<forall>i < j. main i (eval_argv (sizes ! i)) = None"
      unfolding e0 by simp_all
    from j(2) obtain e where "r = Some e" by auto
    then have m: "model_evaulation rest main argv = (1, st)"
      using run by (simp add: run_script [OF p])
    have "main j (eval_argv (sizes ! j)) \<noteq> None" using j(2,3) by simp
    with m j(1,4,5) show ?thesis by auto
  qed
qed

text \<open>
  The theorem at concrete runs: with the sizes 10 and 20 and an evaluation that returns
  the status is 0; with no argument the parser exits with status 2 before any evaluation.
\<close>

theorem exit_status_cases_witness:
  "parse_args rest_rejected (drop 1 [''model_evaulation.py'', ''10'', ''20'']) = Parsed [10, 20]
   \<and> fst (model_evaulation rest_rejected main_returns [''model_evaulation.py'', ''10'', ''20'']) = 0
   \<and> parse_args rest_rejected (drop 1 [''model_evaulation.py'']) = ParserExit 2
   \<and> model_evaulation rest_rejected main_returns [''model_evaulation.py'']
       = (2, start [''model_evaulation.py''])"
proof -
  have p: "parse_args rest_rejected (drop 1 [''model_evaulation.py'', ''10'', ''20''])
      = Parsed [10, 20]"
    by (simp add: parse_10_20)
  have q: "parse_args rest_rejected (drop 1 [''model_evaulation.py'']) = ParserExit 2"
    by (simp add: parse_args_def)
  have m: "main_returns 0 (eval_argv ([10, 20] ! 0)) = None" by (simp add: main_returns_def)
  from exit_status_cases [of rest_rejected "[''model_evaulation.py'', ''10'', ''20'']" 0
        main_returns "[10, 20]"] p
  have "fst (model_evaulation rest_rejected main_returns
      [''model_evaulation.py'', ''10'', ''20'']) = 0"
    by (auto simp: main_returns_def)
  moreover from exit_status_cases [of rest_rejected "[''model_evaulation.py'']" 2
        main_returns "[]"] q
  have "model_evaulation rest_rejected main_returns [''model_evaulation.py'']
       = (2, start [''model_evaulation.py''])"
    by blast
  ultimately show ?thesis using p q by simp
qed

text \<open>
  The claim as first stated made the exit status a function of the parse alone. Two runs
  with the same successfully parsed arguments end with different statuses.
\<close>

theorem exit_status_depends_on_evaluation:
  "parse_args rest_rejected (drop 1 [''model_evaulation.py'', ''10'']) = Parsed [10]
   \<and> fst (model_evaulation rest_rejected main_returns [''model_evaulation.py'', ''10'']) = 0
   \<and> fst (model_evaulation rest_rejected main_raises [''model_evaulation.py'', ''10'']) = 1"
  by (simp add: model_evaulation_def parse_args_def plain_token_def option_like_def py_int_def
      py_strip_def is_space_def int_literal_def is_digit_def digit_val_def eval_mace_def
      main_returns_def main_raises_def)

subsection \<open>C9: \<^verbatim>\<open>sys.argv\<close> after \<^verbatim>\<open>eval_mace\<close>\<close>

text \<open>
  Claim C9, as amended. Every call of \<^verbatim>\<open>eval_mace\<close> leaves in \<^verbatim>\<open>sys.argv\<close> the list
  \<^verbatim>\<open>["program", "--configs", configs, "--model", model, "--output", output]\<close>, which has
  seven elements, whether the evaluation returns or raises. The list does not depend on
  the value \<^verbatim>\<open>sys.argv\<close> had before, and nothing restores that value: after a loop over
  at least one size, \<^verbatim>\<open>sys.argv\<close> is the argument vector of one of the evaluations.
\<close>

theorem eval_mace_overwrites_argv:
  "sys_argv (snd (eval_mace main configs model output st))
     = [''program'', ''--configs'', configs, ''--model'', model, ''--output'', output]
   \<and> length (sys_argv (snd (eval_mace main configs model output st))) = 7
   \<and> sys_argv (snd (eval_mace main configs model output (st\<lparr>sys_argv := old\<rparr>)))
       = sys_argv (snd (eval_mace main configs model output st))
   \<and> (sizes \<noteq> [] \<longrightarrow> (\<exists>n \<in> set sizes. sys_argv (snd (eval_loop main sizes st)) = eval_argv n))"
proof (intro conjI impI)
  assume ne: "sizes \<noteq> []"
  then obtain n ns where s: "sizes = n # ns" by (cases sizes) auto
  obtain r st' where run: "eval_loop main sizes st = (r, st')"
    by (cases "eval_loop main sizes st")
  from eval_loop_first_call [OF run [unfolded s]]
  have l: "evaluated st' \<noteq> []" "sys_argv st' = last (evaluated st')" by simp_all
  from eval_loop_evaluated_set [OF run] ne obtain k
    where k: "k \<le> length sizes" "0 < k" "evaluated st' = evaluated st @ map eval_argv
        (take k sizes)"
    by auto
  then have "take k sizes \<noteq> []" using ne by (cases sizes) auto
  with k(3) l(2) have "sys_argv st' = eval_argv (last (take k sizes))"
    by (simp add: last_map)
  moreover have "last (take k sizes) \<in> set sizes"
    using \<open>take k sizes \<noteq> []\<close> by (meson in_set_takeD last_in_set)
  ultimately show "\<exists>n \<in> set sizes. sys_argv (snd (eval_loop main sizes st)) = eval_argv n"
    using run by auto
qed (simp_all add: eval_mace_state)

text \<open>
  The theorem at a concrete run: the loop over the sizes 10 and 20 with a raising
  evaluation.
\<close>

theorem eval_mace_overwrites_argv_witness:
  "[10, 20 :: int] \<noteq> []
   \<and> (\<exists>n \<in> set [10, 20].
         sys_argv (snd (eval_loop main_raises [10, 20]
             (start [''model_evaulation.py'', ''10'', ''20'']))) = eval_argv n)
   \<and> length (sys_argv (snd (eval_mace main_raises ''c.xyz'' ''m.model'' ''o.xyz''
         (start [''model_evaulation.py'', ''10'', ''20''])))) = 7"
proof -
  have ne: "[10, 20 :: int] \<noteq> []" by simp
  from eval_mace_overwrites_argv [of main_raises "''c.xyz''" "''m.model''" "''o.xyz''"
      "start [''model_evaulation.py'', ''10'', ''20'']" "[]" "[10, 20]"] ne
  show ?thesis by blast
qed

text \<open>
  The claim as first stated called the list a five-element list.
\<close>

theorem eval_mace_argv_not_five:
  "length (sys_argv (snd (eval_mace main_returns ''c.xyz'' ''m.model'' ''o.xyz''
      (start [''model_evaulation.py'', ''10''])))) \<noteq> 5"
  by (simp add: eval_mace_def)

subsection \<open>C10: the dataset path does not depend on the size\<close>

text \<open>
  Claim C10. In every run of the script, every evaluation is given the same validation set
  path as its \<^verbatim>\<open>--configs\<close> value (the third element of the argument vector), whatever the
  size. The model path and the output path differ for different sizes.
\<close>

theorem configs_path_fixed:
  "(\<forall>a \<in> set (evaluated (snd (model_evaulation rest main argv))).
       a ! 2 = ''/home/jh2536/rds/hpc-work/training_val_sets/validation_set_100_revPBE_D3.xyz'')
   \<and> configs_path n = configs_path n'
   \<and> (n \<noteq> n' \<longrightarrow> model_path n \<noteq> model_path n' \<and> output_path n \<noteq> output_path n')"
proof (intro conjI)
  show "\<forall>a \<in> set (evaluated (snd (model_evaulation rest main argv))).
       a ! 2 = ''/home/jh2536/rds/hpc-work/training_val_sets/validation_set_100_revPBE_D3.xyz''"
  proof (cases "parse_args rest (drop 1 argv)")
    case (ParserExit k)
    then show ?thesis by (simp add: model_evaulation_def start_def)
  next
    case (Parsed sizes)
    obtain r st where run: "eval_loop main sizes (start argv) = (r, st)"
      by (cases "eval_loop main sizes (start argv)")
    from eval_loop_evaluated_set [OF run] obtain k
      where "evaluated st = map eval_argv (take k sizes)"
      by (auto simp: start_def)
    moreover have "snd (model_evaulation rest main argv) = st"
      using Parsed run by (cases r) (simp_all add: model_evaulation_def)
    ultimately show ?thesis by (auto simp: eval_argv_def configs_path_def)
  qed
next
  show "configs_path n = configs_path n'" by (simp add: configs_path_def)
next
  show "n \<noteq> n' \<longrightarrow> model_path n \<noteq> model_path n' \<and> output_path n \<noteq> output_path n'"
    by (auto simp: model_path_def output_path_def dest: str_int_inj)
qed

text \<open>
  The theorem at a concrete run with the sizes 10 and 20.
\<close>

theorem configs_path_fixed_witness:
  "evaluated (snd (model_evaulation rest_rejected main_returns
      [''model_evaulation.py'', ''10'', ''20'']))
     = [eval_argv 10, eval_argv 20]
   \<and> eval_argv 10 ! 2 = eval_argv 20 ! 2
   \<and> model_path 10 \<noteq> model_path 20 \<and> output_path 10 \<noteq> output_path 20"
proof -
  have e: "evaluated (snd (model_evaulation rest_rejected main_returns
      [''model_evaulation.py'', ''10'', ''20'']))
     = [eval_argv 10, eval_argv 20]"
    by (simp add: model_evaulation_def parse_10_20 start_def eval_mace_def main_returns_def
        eval_argv_def)
  have "(10::int) \<noteq> 20" by simp
  with configs_path_fixed [of rest_rejected main_returns "[''model_evaulation.py'', ''10'', ''20'']"
      10 20] e
  show ?thesis by simp
qed

section \<open>Properties of the molecular dynamics script\<close>

subsection \<open>Removing the velocity of the centre of mass\<close>

lemma length_remove_COM_velocity: "length (remove_COM_velocity atoms) = length atoms"
  by (simp add: remove_COM_velocity_def set_momenta_def get_momenta_def get_masses_def Let_def)

lemma map2_same: "map2 f (map g xs) (map h xs) = map (\<lambda>x. f (g x) (h x)) xs"
  by (induction xs) auto

lemma map2_self: "map2 f xs (map h xs) = map (\<lambda>x. f x (h x)) xs"
  by (induction xs) auto

text \<open>What the function writes back, atom by atom.\<close>

lemma remove_COM_velocity_map:
  "remove_COM_velocity atoms =
     map (\<lambda>x. x\<lparr>momentum := vsub (momentum x)
            (vscale (vdiv (sum_axis0 (get_momenta atoms)) (sum_list (get_masses atoms))) (mass x))\<rparr>)
                atoms"
  by (simp add: remove_COM_velocity_def set_momenta_def Let_def map2_same map2_self
      get_momenta_def get_masses_def)

lemma masses_remove_COM_velocity: "get_masses (remove_COM_velocity atoms) = get_masses atoms"
  by (simp add: remove_COM_velocity_map get_masses_def)

lemma finite_vec_iff: "finite_vec v \<longleftrightarrow> (\<exists>a b c. v = (Some a, Some b, Some c))"
  by (cases v) auto

lemma sum_axis0_finite: "list_all finite_vec ps \<Longrightarrow> finite_vec (sum_axis0 ps)"
proof (induction ps)
  case Nil
  then show ?case by (simp add: vzero_def)
next
  case (Cons p ps)
  then have "finite_vec p" and "finite_vec (sum_axis0 ps)" by simp_all
  then show ?case by (auto simp: finite_vec_iff np_add_def)
qed

text \<open>Subtracting a finite velocity times the mass from every momentum.\<close>

lemma sum_axis0_shifted:
  assumes "list_all finite_vec (map momentum atoms)"
  shows "sum_axis0 (map (\<lambda>x. vsub (momentum x) (vscale (Some u, Some v, Some w) (mass x))) atoms)
       = vsub (sum_axis0 (map momentum atoms))
              (vscale (Some u, Some v, Some w) (sum_list (map mass atoms)))"
  using assms
proof (induction atoms)
  case Nil
  then show ?case by (simp add: vzero_def np_sub_def np_mul_def)
next
  case (Cons x atoms)
  from Cons.prems have fx: "finite_vec (momentum x)" and fr: "list_all finite_vec
      (map momentum atoms)"
    by simp_all
  from fx obtain a b c where p: "momentum x = (Some a, Some b, Some c)"
    by (auto simp: finite_vec_iff)
  from sum_axis0_finite [OF fr] obtain a' b' c'
    where s: "sum_axis0 (map momentum atoms) = (Some a', Some b', Some c')"
    by (auto simp: finite_vec_iff)
  from Cons.IH [OF fr] s show ?case
    by (simp add: p np_sub_def np_mul_def np_add_def algebra_simps)
qed

lemma total_momentum_zero:
  assumes "list_all finite_vec (get_momenta atoms)" and "sum_list (get_masses atoms) \<noteq> 0"
  shows "sum_axis0 (get_momenta (remove_COM_velocity atoms)) = vzero"
proof -
  let ?M = "sum_list (map mass atoms)"
  from assms(1) have f: "list_all finite_vec (map momentum atoms)" by (simp add: get_momenta_def)
  from sum_axis0_finite [OF f] obtain a b c
    where s: "sum_axis0 (map momentum atoms) = (Some a, Some b, Some c)"
    by (auto simp: finite_vec_iff)
  from assms(2) have M: "?M \<noteq> 0" by (simp add: get_masses_def)
  then have v: "vdiv (sum_axis0 (map momentum atoms)) ?M =
      (Some (a / ?M), Some (b / ?M), Some (c / ?M))"
    by (simp add: s np_div_def)
  have "sum_axis0 (get_momenta (remove_COM_velocity atoms))
      = sum_axis0 (map (\<lambda>x. vsub (momentum x)
          (vscale (Some (a / ?M), Some (b / ?M), Some (c / ?M)) (mass x))) atoms)"
    by (simp add: remove_COM_velocity_map get_momenta_def get_masses_def v comp_def)
  also have "\<dots> = vsub (sum_axis0 (map momentum atoms))
      (vscale (Some (a / ?M), Some (b / ?M), Some (c / ?M)) ?M)"
    by (rule sum_axis0_shifted [OF f])
  also have "\<dots> = vzero"
    using M by (simp add: s np_sub_def np_mul_def vzero_def)
  finally show ?thesis .
qed

lemma remove_COM_velocity_empty: "remove_COM_velocity [] = []"
  by (simp add: remove_COM_velocity_map)

lemma vsub_vnan: "vsub p (vscale (vdiv s 0) m) = vnan"
  by (cases p; cases s) (simp add: np_div_def np_mul_def np_sub_def vnan_def split: option.splits)

lemma remove_COM_velocity_zero_mass:
  "sum_list (get_masses atoms) = 0 \<Longrightarrow>
     get_momenta (remove_COM_velocity atoms) = replicate (length atoms) vnan"
  by (simp add: remove_COM_velocity_map get_momenta_def comp_def vsub_vnan map_replicate_const)

subsection \<open>The diagnostics line\<close>

lemma printenergy_returns:
  "a \<noteq> [] \<Longrightarrow> kB \<noteq> 0 \<Longrightarrow> \<exists>line. printenergy kB pot kin t0 now a = Inr line"
  by (simp add: printenergy_def Let_def split: prod.splits)

lemma py_divmod_60:
  "py_trunc (fst (py_divmod x 60)) = \<lfloor>x / 60\<rfloor>
   \<and> py_trunc (snd (py_divmod x 60)) = \<lfloor>x - 60 * of_int \<lfloor>x / 60\<rfloor>\<rfloor>"
proof -
  have "of_int \<lfloor>x / 60\<rfloor> \<le> x / 60" by (rule of_int_floor_le)
  then have "0 \<le> x - of_int \<lfloor>x / 60\<rfloor> * 60" by simp
  then show ?thesis
    by (simp add: py_divmod_def py_trunc_def mult.commute)
qed

subsection \<open>What the callbacks and the integrator change\<close>

lemma advance_frame:
  "advance e w = Inr w' \<Longrightarrow> console w' = console w \<and> traj w' = traj w"
  by (auto simp: advance_def split: sum.splits)

lemma call_printenergy_frame:
  "call_printenergy e w = Inr w' \<Longrightarrow>
     length (console w') = Suc (length (console w)) \<and> traj w' = traj w \<and> system w' = system w"
  by (auto simp: call_printenergy_def split: sum.splits)

lemma traj_write_frame:
  "traj_write e w = Inr w' \<Longrightarrow>
     console w' = console w \<and> system w' = system w \<and> is_open (traj w) \<and> is_open (traj w')
     \<and> length (frames (traj w')) = Suc (length (frames (traj w)))"
  by (auto simp: traj_write_def split: trajectory.splits if_splits)

subsection \<open>Runs of the dynamics\<close>




subsection \<open>The driver of the specification\<close>

lemma call_observers_counts:
  assumes "call_observers [(call_printenergy e, d), (traj_write e, t)] s w = (None, w')"
  shows "length (console w') = length (console w) + (if d dvd s then 1 else 0)
       \<and> length (frames (traj w')) = length (frames (traj w)) + (if t dvd s then 1 else 0)
       \<and> system w' = system w"
proof -
  obtain w1 where 1: "(if d dvd s then call_printenergy e w = Inr w1 else w1 = w)"
    and 2: "(if t dvd s then traj_write e w1 = Inr w' else w' = w1)"
    using assms by (auto split: if_splits sum.splits)
  from 1 have a: "length (console w1) = length (console w) + (if d dvd s then 1 else 0)
      \<and> traj w1 = traj w \<and> system w1 = system w"
    by (auto simp: call_printenergy_frame split: if_splits)
  from 2 have b: "console w' = console w1 \<and> system w' = system w1
      \<and> length (frames (traj w')) = length (frames (traj w1)) + (if t dvd s then 1 else 0)"
    by (auto simp: traj_write_frame split: if_splits)
  from a b show ?thesis by simp
qed

lemma div_Suc_dvd: "0 < d \<Longrightarrow> Suc s div d = s div d + (if d dvd Suc s then 1 else 0)"
  by (simp add: div_Suc mod_eq_0_iff_dvd)

lemma md_steps_counts:
  assumes "md_steps (advance e) [(call_printenergy e, d), (traj_write e, t)] s k w = (None, w')"
    and "0 < d" and "0 < t"
  shows "length (console w') + s div d = length (console w) + (s + k) div d
       \<and> length (frames (traj w')) + s div t = length (frames (traj w)) + (s + k) div t"
  using assms(1)
proof (induction k arbitrary: s w)
  case 0
  then show ?case by simp
next
  case (Suc k)
  let ?cbs = "[(call_printenergy e, d), (traj_write e, t)]"
  obtain w1 where 1: "advance e w = Inr w1"
    using Suc.prems by (cases "advance e w") simp_all
  obtain r2 w2 where o: "call_observers ?cbs (Suc s) w1 = (r2, w2)"
    by (cases "call_observers ?cbs (Suc s) w1")
  have r2: "r2 = None"
    using Suc.prems 1 o by (cases r2) (simp_all del: call_observers.simps)
  from o r2 have 2: "call_observers ?cbs (Suc s) w1 = (None, w2)" by simp
  have 3: "md_steps (advance e) ?cbs (Suc s) k w2 = (None, w')"
    using Suc.prems 1 2 by (simp del: call_observers.simps)
  from advance_frame [OF 1] have a: "console w1 = console w" "traj w1 = traj w" by simp_all
  note b = call_observers_counts [OF 2]
  note c = Suc.IH [OF 3]
  from assms(2) have d: "Suc s div d = s div d + (if d dvd Suc s then 1 else 0)"
    by (rule div_Suc_dvd)
  from assms(3) have t: "Suc s div t = s div t + (if t dvd Suc s then 1 else 0)"
    by (rule div_Suc_dvd)
  from a b c d t show ?case by (simp split: if_splits)
qed

lemma md_run_counts:
  assumes "md_run (advance e) [(call_printenergy e, d), (traj_write e, t)] N w = (None, w')"
  shows "length (console w') = length (console w) + N div d
       \<and> length (frames (traj w')) = length (frames (traj w)) + N div t"
proof -
  from assms have ok: "0 < N \<and> 0 < d \<and> 0 < t"
    and run: "md_steps (advance e) [(call_printenergy e, d), (traj_write e, t)] 0 N w = (None, w')"
    by (auto simp: md_run_def split: if_splits)
  from md_steps_counts [OF run] ok show ?thesis by simp
qed

text \<open>A run completes when nothing outside fails.\<close>

lemma md_steps_completes:
  assumes kB: "units_kB e \<noteq> 0"
    and step: "\<And>a. a \<noteq> [] \<Longrightarrow> \<exists>a'. bussi_step e a = Inr a' \<and> a' \<noteq> []"
    and disk: "\<And>fs. trajectory_writes e fs"
  shows "system w \<noteq> [] \<Longrightarrow> is_open (traj w) \<Longrightarrow>
     \<exists>w'. md_steps (advance e) [(call_printenergy e, d), (traj_write e, t)] s k w = (None, w')"
proof (induction k arbitrary: s w)
  case 0
  then show ?case by simp
next
  case (Suc k)
  let ?cbs = "[(call_printenergy e, d), (traj_write e, t)]"
  from step [OF Suc.prems(1)] obtain a' where a': "bussi_step e (system w) = Inr a'" "a' \<noteq> []"
    by blast
  let ?w1 = "w\<lparr>system := a'\<rparr>"
  have 1: "advance e w = Inr ?w1" using a' by (simp add: advance_def)
  have s1: "system ?w1 \<noteq> []" "is_open (traj ?w1)" using a' Suc.prems(2) by simp_all
  obtain wp where wp: "(if d dvd Suc s then call_printenergy e ?w1 = Inr wp else wp = ?w1)"
    and sp: "system wp \<noteq> []" "is_open (traj wp)"
  proof (cases "d dvd Suc s")
    case True
    from s1(1) kB obtain line where "printenergy (units_kB e) (potential_energy e)
        (kinetic_energy e)
        (time_time e 0) (time_time e (Suc (length (console ?w1)))) (system ?w1) = Inr line"
      using printenergy_returns by blast
    then have "call_printenergy e ?w1 = Inr (?w1\<lparr>console := console ?w1 @ [line]\<rparr>)"
      by (simp add: call_printenergy_def)
    with True s1 that show ?thesis by simp
  next
    case False
    with s1 that show ?thesis by simp
  qed
  obtain w2 where w2: "(if t dvd Suc s then traj_write e wp = Inr w2 else w2 = wp)"
    and s2: "system w2 \<noteq> []" "is_open (traj w2)"
  proof (cases "t dvd Suc s")
    case True
    from sp(2) obtain fs where "traj wp = Opened fs" by (cases "traj wp") auto
    then have "traj_write e wp = Inr (wp\<lparr>traj := Opened (fs @ [system wp])\<rparr>)"
      using disk by (simp add: traj_write_def)
    with True sp that show ?thesis by simp
  next
    case False
    with sp that show ?thesis by simp
  qed
  from wp w2 have 2: "call_observers ?cbs (Suc s) ?w1 = (None, w2)"
    by (auto split: if_splits)
  from Suc.IH [OF s2] obtain w' where "md_steps (advance e) ?cbs (Suc s) k w2 = (None, w')"
    by blast
  with 1 2 show ?case by (simp del: call_observers.simps)
qed

lemma caco3_MD_reaches_run:
  assumes "maxwell_boltzmann e T_init CaCO3 = Inr a" and "a \<noteq> []"
    and "trajectory_opens e" and "units_kB e \<noteq> 0"
  shows "\<exists>w3. caco3_MD e run CaCO3 = run [(call_printenergy e, 1000), (traj_write e, 10)] n_steps w3
           \<and> system w3 \<noteq> [] \<and> traj w3 = Opened [] \<and> length (console w3) = 1"
proof -
  let ?w2 = "\<lparr>system = remove_COM_velocity a, console = [], traj = Opened []\<rparr>"
  have ne: "remove_COM_velocity a \<noteq> []"
    using assms(2) length_remove_COM_velocity [of a] by (cases "remove_COM_velocity a") auto
  have "system ?w2 \<noteq> []" using ne by simp
  from printenergy_returns [OF this assms(4)]
  obtain line where "printenergy (units_kB e) (potential_energy e) (kinetic_energy e)
        (time_time e 0) (time_time e (Suc (length (console ?w2)))) (system ?w2) = Inr line"
    by blast
  then have p: "call_printenergy e ?w2 = Inr (?w2\<lparr>console := console ?w2 @ [line]\<rparr>)"
    by (simp add: call_printenergy_def)
  have "caco3_MD e run CaCO3
      = run [(call_printenergy e, 1000), (traj_write e, 10)] n_steps
          (?w2\<lparr>console := console ?w2 @ [line]\<rparr>)"
    using assms(1,3) p by (simp add: caco3_MD_def velocity_initializer_def)
  with ne show ?thesis by (intro exI [of _ "?w2\<lparr>console := console ?w2 @ [line]\<rparr>"]) simp
qed

lemma caco3_MD_completed:
  assumes "caco3_MD e run CaCO3 = (None, w)"
  shows "\<exists>w3. run [(call_printenergy e, 1000), (traj_write e, 10)] n_steps w3 = (None, w)
           \<and> traj w3 = Opened [] \<and> length (console w3) = 1"
proof -
  obtain a where a: "velocity_initializer (maxwell_boltzmann e) T_init CaCO3 = Inr a"
    using assms by (cases "velocity_initializer (maxwell_boltzmann e) T_init CaCO3")
      (simp_all add: caco3_MD_def)
  have o: "trajectory_opens e"
    using assms a by (cases "trajectory_opens e") (simp_all add: caco3_MD_def)
  let ?w2 = "\<lparr>system = a, console = [], traj = Opened []\<rparr>"
  obtain w3 where p: "call_printenergy e ?w2 = Inr w3"
    using assms a o by (cases "call_printenergy e ?w2") (simp_all add: caco3_MD_def)
  have "run [(call_printenergy e, 1000), (traj_write e, 10)] n_steps w3 = (None, w)"
    using assms a o p by (simp add: caco3_MD_def)
  moreover from call_printenergy_frame [OF p] have "traj w3 = Opened []" "length (console w3) = 1"
    by simp_all
  ultimately show ?thesis by blast
qed

lemma driven_trans:
  "driven step cbs w r1 w1 \<Longrightarrow> driven step cbs w1 r w2 \<Longrightarrow> driven step cbs w r w2"
  by (induction rule: driven.induct) (auto intro: driven.intros)

lemma call_observers_driven:
  "set cs \<subseteq> set cbs \<Longrightarrow>
     driven step cbs w (fst (call_observers cs s w)) (snd (call_observers cs s w))"
proof (induction cs arbitrary: w)
  case Nil
  show ?case by (simp add: driven.stops)
next
  case (Cons c cs)
  obtain f i where c: "c = (f, i)" by (cases c)
  from Cons.prems c have in_cbs: "(f, i) \<in> set cbs" and rest: "set cs \<subseteq> set cbs" by simp_all
  show ?case
  proof (cases "i dvd s")
    case False
    with Cons.IH [OF rest] c show ?thesis by simp
  next
    case True
    show ?thesis
    proof (cases "f w")
      case (Inl err)
      with True c show ?thesis by (simp add: driven.stops)
    next
      case (Inr w1)
      from in_cbs Inr Cons.IH [OF rest, of w1]
      have "driven step cbs w (fst (call_observers cs s w1)) (snd (call_observers cs s w1))"
        by (rule driven.calls)
      with True c Inr show ?thesis by simp
    qed
  qed
qed

lemma md_steps_driven:
  "driven step cbs w (fst (md_steps step cbs s k w)) (snd (md_steps step cbs s k w))"
proof (induction k arbitrary: s w)
  case 0
  show ?case by (simp add: driven.stops)
next
  case (Suc k)
  show ?case
  proof (cases "step w")
    case (Inl err)
    then show ?thesis by (simp add: driven.stops)
  next
    case (Inr w1)
    obtain r2 w2 where o: "call_observers cbs (Suc s) w1 = (r2, w2)"
      by (cases "call_observers cbs (Suc s) w1")
    from call_observers_driven [of cbs cbs step w1 "Suc s"] o
    have d1: "driven step cbs w1 r2 w2" by simp
    show ?thesis
    proof (cases r2)
      case None
      from d1 Suc.IH [of w2 "Suc s"]
      have "driven step cbs w1 (fst (md_steps step cbs (Suc s) k w2))
          (snd (md_steps step cbs (Suc s) k w2))"
        by (rule driven_trans)
      with Inr have "driven step cbs w (fst (md_steps step cbs (Suc s) k w2))
          (snd (md_steps step cbs (Suc s) k w2))"
        by (rule driven.advances)
      with Inr o None show ?thesis by simp
    next
      case (Some err)
      from Inr d1 have "driven step cbs w r2 w2" by (rule driven.advances)
      with Inr o Some show ?thesis by simp
    qed
  qed
qed

lemma md_run_driven:
  "driven step cbs w (fst (md_run step cbs N w)) (snd (md_run step cbs N w))"
  by (simp add: md_run_def md_steps_driven driven.stops)

lemma md_run_completes:
  assumes "units_kB e \<noteq> 0"
    and "\<And>a. a \<noteq> [] \<Longrightarrow> \<exists>a'. bussi_step e a = Inr a' \<and> a' \<noteq> []"
    and "\<And>fs. trajectory_writes e fs"
    and "0 < N" and "0 < d" and "0 < t"
    and "system w \<noteq> []" and "is_open (traj w)"
  shows "\<exists>w'. md_run (advance e) [(call_printenergy e, d), (traj_write e, t)] N w = (None, w')"
proof -
  from md_steps_completes [of e w d t 0 N, OF assms(1,2,3,7,8)]
  obtain w' where "md_steps (advance e) [(call_printenergy e, d), (traj_write e, t)] 0 N w =
      (None, w')"
    by blast
  with assms(4,5,6) show ?thesis by (simp add: md_run_def)
qed

lemma quiet_env_quiet:
  "units_kB quiet_env \<noteq> 0"
  "a \<noteq> [] \<Longrightarrow> \<exists>a'. bussi_step quiet_env a = Inr a' \<and> a' \<noteq> []"
  "trajectory_writes quiet_env fs"
  "maxwell_boltzmann quiet_env T_init two_atoms = Inr two_atoms"
  "trajectory_opens quiet_env"
  by (simp_all add: quiet_env_def bussi_keeps_def always_writes_def MaxwellBoltzmann_keeps_def)

section \<open>Claims about the molecular dynamics script\<close>

subsection \<open>C1: how often the reporter and the recorder run\<close>

text \<open>
  Claim C1, for the driver of the specification. In every run of the driver that completes,
  with a positive number of steps \<open>N\<close>, the diagnostics reporter attached with interval
  \<open>d \<le> N\<close> and the trajectory recorder attached with interval \<open>t \<le> N\<close>, the run adds
  \<open>N div d\<close> lines to the console and \<open>N div t\<close> frames to the trajectory. For the script,
  which attaches them with the intervals 1000 and 10, prints one line before the run and
  runs 250000 steps: when the script completes, the console has the one line printed
  before the run and 250 lines of the run, and the trajectory has 25000 frames.
\<close>

theorem driver_invocation_counts:
  "(md_run (advance e) [(call_printenergy e, d), (traj_write e, t)] N w = (None, w')
      \<and> 0 < N \<and> 0 < d \<and> d \<le> N \<and> 0 < t \<and> t \<le> N \<longrightarrow>
        length (console w') = length (console w) + N div d
      \<and> length (frames (traj w')) = length (frames (traj w)) + N div t)
   \<and> (caco3_MD e (md_run (advance e)) CaCO3 = (None, w'') \<longrightarrow>
        length (console w'') = 1 + 250 \<and> length (frames (traj w'')) = 25000)"
proof (intro conjI impI)
  assume a: "md_run (advance e) [(call_printenergy e, d), (traj_write e, t)] N w = (None, w')
      \<and> 0 < N \<and> 0 < d \<and> d \<le> N \<and> 0 < t \<and> t \<le> N"
  then have run: "md_run (advance e) [(call_printenergy e, d), (traj_write e, t)] N w = (None, w')"
    by blast
  from md_run_counts [OF run]
  show "length (console w') = length (console w) + N div d"
    and "length (frames (traj w')) = length (frames (traj w)) + N div t"
    by simp_all
next
  assume "caco3_MD e (md_run (advance e)) CaCO3 = (None, w'')"
  from caco3_MD_completed [OF this] obtain w3
    where run: "md_run (advance e) [(call_printenergy e, 1000), (traj_write e, 10)] n_steps w3 =
        (None, w'')"
      and w3: "traj w3 = Opened []" "length (console w3) = 1"
    by blast
  have "n_steps div 1000 = 250" "n_steps div 10 = 25000" by (simp_all add: n_steps_def)
  with md_run_counts [OF run] w3
  show "length (console w'') = 1 + 250" and "length (frames (traj w'')) = 25000"
    by simp_all
qed

text \<open>
  The theorem at concrete runs where nothing outside fails: six steps with the intervals
  3 and 2 give 2 lines and 3 frames, and the script completes with 251 lines and 25000
  frames. The run of the driver is one of the runs that \<open>driven\<close> describes.
\<close>

theorem driver_invocation_counts_witness:
  "fst six_steps = None
   \<and> length (console (snd six_steps)) = 2
   \<and> length (frames (traj (snd six_steps))) = 3
   \<and> driven (advance quiet_env) [(call_printenergy quiet_env, 3), (traj_write quiet_env, 2)]
        opened_world (fst six_steps) (snd six_steps)
   \<and> fst quiet_script = None
   \<and> length (console (snd quiet_script)) = 251
   \<and> length (frames (traj (snd quiet_script))) = 25000"
proof -
  let ?cbs = "[(call_printenergy quiet_env, 3), (traj_write quiet_env, 2)]"
  have ne: "two_atoms \<noteq> []" by (simp add: two_atoms_def)
  have "system opened_world \<noteq> []" "is_open (traj opened_world)"
    using ne by (simp_all add: opened_world_def)
  with md_run_completes [of quiet_env 6 3 2 opened_world, OF quiet_env_quiet(1,2,3)]
  obtain w6 where r6: "md_run (advance quiet_env) ?cbs 6 opened_world = (None, w6)"
    by auto
  from caco3_MD_reaches_run [of quiet_env two_atoms two_atoms "md_run (advance quiet_env)",
      OF quiet_env_quiet(4) ne quiet_env_quiet(5,1)]
  obtain w3 where w3: "caco3_MD quiet_env (md_run (advance quiet_env)) two_atoms
        = md_run (advance quiet_env) [(call_printenergy quiet_env, 1000),
            (traj_write quiet_env, 10)] n_steps w3"
      "system w3 \<noteq> []" "traj w3 = Opened []"
    by blast
  have "0 < n_steps" by (simp add: n_steps_def)
  with md_run_completes [of quiet_env n_steps 1000 10 w3, OF quiet_env_quiet(1,2,3)] w3(2,3)
  obtain w9 where "md_run (advance quiet_env)
      [(call_printenergy quiet_env, 1000), (traj_write quiet_env, 10)] n_steps w3
       = (None, w9)"
    by auto
  with w3(1) have r9: "caco3_MD quiet_env (md_run (advance quiet_env)) two_atoms = (None, w9)"
    by simp
  have c0: "length (console opened_world) = 0" "length (frames (traj opened_world)) = 0"
    by (simp_all add: opened_world_def)
  from driver_invocation_counts [of quiet_env 3 2 6 opened_world w6 two_atoms w9] r6 r9 c0
  have "length (console w6) = 2 \<and> length (frames (traj w6)) = 3
      \<and> length (console w9) = 251 \<and> length (frames (traj w9)) = 25000"
    by simp
  moreover have "driven (advance quiet_env) ?cbs opened_world
        (fst (md_run (advance quiet_env) ?cbs 6 opened_world))
        (snd (md_run (advance quiet_env) ?cbs 6 opened_world))"
    by (rule md_run_driven)
  ultimately show ?thesis using r6 r9 by (simp add: six_steps_def quiet_script_def)
qed

subsection \<open>C2: the total momentum after \<^verbatim>\<open>remove_COM_velocity\<close>\<close>

text \<open>
  Claim C2. For every system that is not empty, whose total mass is positive and whose
  momenta are finite numbers, \<^verbatim>\<open>remove_COM_velocity\<close> leaves the total momentum (the sum of
  the momenta, which is the mass-weighted sum of the velocities) exactly zero in exact
  arithmetic. Each new momentum is the old one minus the mass times the centre-of-mass
  velocity, the total momentum divided by the total mass; the masses are unchanged.
\<close>

theorem remove_COM_velocity_zero_momentum:
  assumes "atoms \<noteq> []" and "0 < sum_list (get_masses atoms)"
    and "list_all finite_vec (get_momenta atoms)"
  shows "sum_axis0 (get_momenta (remove_COM_velocity atoms)) = vzero
    \<and> get_momenta (remove_COM_velocity atoms)
        = map (\<lambda>x. vsub (momentum x)
                 (vscale (vdiv (sum_axis0 (get_momenta atoms)) (sum_list (get_masses atoms)))
                     (mass x))) atoms
    \<and> list_all finite_vec (get_momenta (remove_COM_velocity atoms))
    \<and> get_masses (remove_COM_velocity atoms) = get_masses atoms"
proof (intro conjI)
  from assms(2) have M: "sum_list (get_masses atoms) \<noteq> 0" by simp
  show "sum_axis0 (get_momenta (remove_COM_velocity atoms)) = vzero"
    using assms(3) M by (rule total_momentum_zero)
  show "get_momenta (remove_COM_velocity atoms)
        = map (\<lambda>x. vsub (momentum x)
                 (vscale (vdiv (sum_axis0 (get_momenta atoms)) (sum_list (get_masses atoms)))
                     (mass x))) atoms"
    by (simp add: remove_COM_velocity_map get_momenta_def comp_def)
  show "get_masses (remove_COM_velocity atoms) = get_masses atoms"
    by (rule masses_remove_COM_velocity)
  from assms(3) have f: "list_all finite_vec (map momentum atoms)" by (simp add: get_momenta_def)
  from sum_axis0_finite [OF f] obtain a b c
    where s: "sum_axis0 (get_momenta atoms) = (Some a, Some b, Some c)"
    by (auto simp: finite_vec_iff get_momenta_def)
  have "\<And>x. x \<in> set atoms \<Longrightarrow> finite_vec (vsub (momentum x)
                 (vscale (vdiv (sum_axis0 (get_momenta atoms)) (sum_list (get_masses atoms)))
                     (mass x)))"
  proof -
    fix x assume "x \<in> set atoms"
    with f have "finite_vec (momentum x)" by (simp add: list_all_iff)
    then obtain a' b' c' where "momentum x = (Some a', Some b', Some c')"
      by (auto simp: finite_vec_iff)
    then show "finite_vec (vsub (momentum x)
                 (vscale (vdiv (sum_axis0 (get_momenta atoms)) (sum_list (get_masses atoms)))
                     (mass x)))"
      using M by (simp add: s np_div_def np_mul_def np_sub_def)
  qed
  then show "list_all finite_vec (get_momenta (remove_COM_velocity atoms))"
    by (simp add: remove_COM_velocity_map get_momenta_def comp_def list_all_iff)
qed

text \<open>
  The theorem at two atoms of masses 1 and 3 with momenta \<open>(1, 0, 0)\<close> and \<open>(3, 2, 0)\<close>.
\<close>

theorem remove_COM_velocity_zero_momentum_witness:
  "two_atoms \<noteq> [] \<and> 0 < sum_list (get_masses two_atoms)
   \<and> list_all finite_vec (get_momenta two_atoms)
   \<and> sum_axis0 (get_momenta (remove_COM_velocity two_atoms)) = vzero
   \<and> get_momenta (remove_COM_velocity two_atoms)
       = [(Some 0, Some (- (1 / 2)), Some 0), (Some 0, Some (1 / 2), Some 0)]"
proof -
  have 1: "two_atoms \<noteq> []" by (simp add: two_atoms_def)
  have 2: "0 < sum_list (get_masses two_atoms)" by (simp add: two_atoms_def get_masses_def)
  have 3: "list_all finite_vec (get_momenta two_atoms)" by (simp add: two_atoms_def get_momenta_def)
  have 4: "map (\<lambda>x. vsub (momentum x)
                 (vscale (vdiv (sum_axis0 (get_momenta two_atoms))
                     (sum_list (get_masses two_atoms))) (mass x))) two_atoms
       = [(Some 0, Some (- (1 / 2)), Some 0), (Some 0, Some (1 / 2), Some 0)]"
    by (simp add: two_atoms_def get_momenta_def get_masses_def np_add_def np_sub_def np_mul_def
        np_div_def vzero_def)
  note t = remove_COM_velocity_zero_momentum [OF 1 2 3]
  from t have 5: "sum_axis0 (get_momenta (remove_COM_velocity two_atoms)) = vzero"
    by (rule conjunct1)
  from t have "get_momenta (remove_COM_velocity two_atoms)
     = map (\<lambda>x. vsub (momentum x)
                 (vscale (vdiv (sum_axis0 (get_momenta two_atoms))
                     (sum_list (get_masses two_atoms))) (mass x))) two_atoms"
    by blast
  with 4 have 6: "get_momenta (remove_COM_velocity two_atoms)
       = [(Some 0, Some (- (1 / 2)), Some 0), (Some 0, Some (1 / 2), Some 0)]"
    by (simp only:)
  from 1 2 3 5 6 show ?thesis by blast
qed

subsection \<open>C3: no validation in the velocity initialisation\<close>

text \<open>
  Claim C3, as amended. The velocity initialisation (the Maxwell-Boltzmann assignment
  followed by \<^verbatim>\<open>remove_COM_velocity\<close>) checks nothing itself. It raises only what the
  Maxwell-Boltzmann assignment of the library raises. Whenever that assignment returns,
  the initialisation returns too: for a system with no particle it returns the empty
  system, and for a system with particles and zero total mass it divides by zero without
  raising and leaves every momentum not finite, with the masses unchanged.
\<close>

theorem velocity_initializer_never_validates:
  "(velocity_initializer mbd tK a = Inl e \<longrightarrow> mbd tK a = Inl e)
   \<and> (mbd tK a = Inr [] \<longrightarrow> velocity_initializer mbd tK a = Inr [])
   \<and> (mbd tK a = Inr a' \<and> a' \<noteq> [] \<and> sum_list (get_masses a') = 0 \<longrightarrow>
        (\<exists>a''. velocity_initializer mbd tK a = Inr a''
           \<and> get_momenta a'' = replicate (length a') vnan
           \<and> get_masses a'' = get_masses a'))"
proof (intro conjI impI)
  assume "velocity_initializer mbd tK a = Inl e"
  then show "mbd tK a = Inl e"
    by (simp add: velocity_initializer_def split: sum.splits)
next
  assume "mbd tK a = Inr []"
  then show "velocity_initializer mbd tK a = Inr []"
    by (simp add: velocity_initializer_def remove_COM_velocity_empty)
next
  assume h: "mbd tK a = Inr a' \<and> a' \<noteq> [] \<and> sum_list (get_masses a') = 0"
  then have "velocity_initializer mbd tK a = Inr (remove_COM_velocity a')"
    by (simp add: velocity_initializer_def)
  moreover from h have "get_momenta (remove_COM_velocity a') = replicate (length a') vnan"
    by (simp add: remove_COM_velocity_zero_mass)
  moreover have "get_masses (remove_COM_velocity a') = get_masses a'"
    by (rule masses_remove_COM_velocity)
  ultimately show "\<exists>a''. velocity_initializer mbd tK a = Inr a''
           \<and> get_momenta a'' = replicate (length a') vnan
           \<and> get_masses a'' = get_masses a'"
    by blast
qed

text \<open>
  The theorem at the empty system and at one particle of mass zero.
\<close>

theorem velocity_initializer_never_validates_witness:
  "MaxwellBoltzmann_keeps 600 [] = Inr []
   \<and> velocity_initializer MaxwellBoltzmann_keeps 600 [] = Inr []
   \<and> MaxwellBoltzmann_keeps 600 massless_atom = Inr massless_atom \<and> massless_atom \<noteq> []
   \<and> sum_list (get_masses massless_atom) = 0
   \<and> (\<exists>a''. velocity_initializer MaxwellBoltzmann_keeps 600 massless_atom = Inr a''
         \<and> get_momenta a'' = replicate (length massless_atom) vnan
         \<and> get_masses a'' = get_masses massless_atom)"
proof -
  have 1: "MaxwellBoltzmann_keeps 600 [] = Inr []" by (simp add: MaxwellBoltzmann_keeps_def)
  have 2: "MaxwellBoltzmann_keeps 600 massless_atom = Inr massless_atom \<and> massless_atom \<noteq> []
      \<and> sum_list (get_masses massless_atom) = 0"
    by (simp add: MaxwellBoltzmann_keeps_def massless_atom_def get_masses_def)
  from velocity_initializer_never_validates [of MaxwellBoltzmann_keeps 600 "[]" InvalidConfiguration
      "[]"] 1
  have 3: "velocity_initializer MaxwellBoltzmann_keeps 600 [] = Inr []" by blast
  from velocity_initializer_never_validates
    [of MaxwellBoltzmann_keeps 600 massless_atom InvalidConfiguration massless_atom] 2
  have "\<exists>a''. velocity_initializer MaxwellBoltzmann_keeps 600 massless_atom = Inr a''
         \<and> get_momenta a'' = replicate (length massless_atom) vnan
         \<and> get_masses a'' = get_masses massless_atom"
    by blast
  with 1 2 3 show ?thesis by blast
qed

text \<open>
  The claim as first stated had an \<open>InvalidConfiguration\<close> error for a system of zero total
  mass. For one particle of mass zero at rest and the temperature 600 the initialisation
  returns, and the momentum it leaves is not a number.
\<close>

theorem zero_total_mass_no_error:
  "velocity_initializer MaxwellBoltzmann_keeps 600 massless_atom
     = Inr [\<lparr>mass = 0, momentum = (None, None, None), position = (0, 0, 0), number = 0\<rparr>]"
  by (simp add: velocity_initializer_def MaxwellBoltzmann_keeps_def massless_atom_def
      remove_COM_velocity_map get_momenta_def get_masses_def np_div_def np_mul_def np_sub_def
      np_add_def vzero_def)

subsection \<open>C4: the trajectory file at the end of the script\<close>




subsection \<open>C5: the diagnostics line\<close>

text \<open>
  Claim C5. For a system with at least one atom (and a Boltzmann constant that is not
  zero) \<^verbatim>\<open>printenergy\<close> emits a line. Every line it emits holds the potential energy per
  atom, the kinetic energy per atom, the temperature, the total energy per atom and the
  elapsed minutes and seconds, where the temperature is two thirds of the kinetic energy
  per atom divided by the Boltzmann constant and the total energy per atom is the sum of
  the potential and the kinetic energy per atom.
\<close>

theorem printenergy_line:
  "(a \<noteq> [] \<and> kB \<noteq> 0 \<longrightarrow> (\<exists>line. printenergy kB pot kin t0 now a = Inr line))
   \<and> (printenergy kB pot kin t0 now a = Inr line \<longrightarrow>
        Epot line = pot a / real (length a)
      \<and> Ekin line = kin a / real (length a)
      \<and> Temperature line = 2 / 3 * Ekin line / kB
      \<and> Etot line = Epot line + Ekin line
      \<and> Elapsed_min line = \<lfloor>(now - t0) / 60\<rfloor>
      \<and> Elapsed_sec line = \<lfloor>(now - t0) - 60 * of_int \<lfloor>(now - t0) / 60\<rfloor>\<rfloor>)"
proof (intro conjI impI)
  assume "a \<noteq> [] \<and> kB \<noteq> 0"
  then show "\<exists>line. printenergy kB pot kin t0 now a = Inr line"
    by (simp add: printenergy_def Let_def split: prod.splits)
next
  assume p: "printenergy kB pot kin t0 now a = Inr line"
  then have ne: "length a \<noteq> 0" and k: "kB \<noteq> 0"
    by (auto simp: printenergy_def Let_def split: if_splits prod.splits)
  from p ne k have line: "line = \<lparr>Epot = pot a / real (length a), Ekin = kin a / real (length a),
      Temperature = kin a / real (length a) / (1.5 * kB),
      Etot = pot a / real (length a) + kin a / real (length a),
      Elapsed_min = py_trunc (fst (py_divmod (now - t0) 60)),
      Elapsed_sec = py_trunc (snd (py_divmod (now - t0) 60))\<rparr>"
    by (auto simp: printenergy_def Let_def split: prod.splits)
  show "Epot line = pot a / real (length a)" by (simp add: line)
  show "Ekin line = kin a / real (length a)" by (simp add: line)
  show "Temperature line = 2 / 3 * Ekin line / kB" using k by (simp add: line field_simps)
  show "Etot line = Epot line + Ekin line" by (simp add: line)
  show "Elapsed_min line = \<lfloor>(now - t0) / 60\<rfloor>" by (simp add: line py_divmod_60)
  show "Elapsed_sec line = \<lfloor>(now - t0) - 60 * of_int \<lfloor>(now - t0) / 60\<rfloor>\<rfloor>"
    by (simp add: line py_divmod_60)
qed

text \<open>
  The theorem at two atoms with potential energy 4 and kinetic energy 3, 125.5 seconds
  after the start.
\<close>

theorem printenergy_line_witness:
  "two_atoms \<noteq> [] \<and> (1::real) \<noteq> 0
   \<and> printenergy 1 energy_4 energy_3 10 (271 / 2) two_atoms
       = Inr \<lparr>Epot = 2, Ekin = 3 / 2, Temperature = 1, Etot = 7 / 2,
              Elapsed_min = 2, Elapsed_sec = 5\<rparr>"
proof -
  let ?line = "\<lparr>Epot = 2, Ekin = 3 / 2, Temperature = 1, Etot = 7 / 2,
      Elapsed_min = 2, Elapsed_sec = 5\<rparr>"
  have 1: "two_atoms \<noteq> [] \<and> (1::real) \<noteq> 0" by (simp add: two_atoms_def)
  from printenergy_line [of two_atoms 1 energy_4 energy_3 10 "271 / 2" ?line] 1
  obtain l where l: "printenergy 1 energy_4 energy_3 10 (271 / 2) two_atoms = Inr l" by blast
  from printenergy_line [of two_atoms 1 energy_4 energy_3 10 "271 / 2" l] l
  have "Epot l = 2 \<and> Ekin l = 3 / 2 \<and> Temperature l = 1 \<and> Etot l = 7 / 2
      \<and> Elapsed_min l = 2 \<and> Elapsed_sec l = 5"
    by (simp add: two_atoms_def energy_4_def energy_3_def)
  then have "l = ?line" by (cases l) simp
  with l 1 show ?thesis by simp
qed

end
